theory Spec2Isabelle
  imports Main "HOL-Library.Word" "HOL-Library.Char_ord"
begin

unbundle bit_operations_syntax

section \<open>Error values and the OS personality table\<close>

text \<open>
  Modelled from the spec: the declaration of \<open>OSType\<close> is not among the sources. The spec
  has two personalities, POSIX and Windows; the sources name the values \<open>OsDarwin\<close>,
  \<open>OsLinux\<close> and \<open>OsWindows\<close>, and \<open>OsUnknown\<close> stands for any other value of the
  type. \<open>Errors.SetOSType\<close> and \<open>volumeNameLen\<close> only distinguish \<open>OsWindows\<close> from
  everything else.
\<close>

datatype OSType = OsUnknown | OsDarwin | OsLinux | OsWindows

text \<open>
  A Go \<open>error\<close> is an interface value: a dynamic type and a value. \<open>LinuxError\<close> and
  \<open>WindowsError\<close> are both \<open>uint32\<close>, but values of the two types never compare equal.
  \<open>PathError\<close> carries \<open>Op, Path, Err\<close> and \<open>LinkError\<close> carries \<open>Op, Old, New, Err\<close>.
  A nil error is \<open>None\<close> of \<open>error option\<close>.
\<close>

datatype error =
    LinuxError "32 word"
  | WindowsError "32 word"
  | PathError string string error
  | LinkError string string string error
  | OtherError string

definition ErrBadFileDesc :: error where "ErrBadFileDesc = LinuxError 0x9"
definition ErrCrossDevLink :: error where "ErrCrossDevLink = LinuxError 0x12"
definition ErrDirNotEmpty :: error where "ErrDirNotEmpty = LinuxError 0x27"
definition ErrFileExists :: error where "ErrFileExists = LinuxError 0x11"
definition ErrInvalidArgument :: error where "ErrInvalidArgument = LinuxError 0x16"
definition ErrIsADirectory :: error where "ErrIsADirectory = LinuxError 0x15"
definition ErrNoSuchFileOrDir :: error where "ErrNoSuchFileOrDir = LinuxError 0x2"
definition ErrNotADirectory :: error where "ErrNotADirectory = LinuxError 0x14"
definition ErrOpNotPermitted :: error where "ErrOpNotPermitted = LinuxError 0x1"
definition ErrPermDenied :: error where "ErrPermDenied = LinuxError 0xd"
definition ErrTooManySymlinks :: error where "ErrTooManySymlinks = LinuxError 0x28"

definition ErrWinAccessDenied :: error where "ErrWinAccessDenied = WindowsError 5"
definition ErrWinDirNotEmpty :: error where "ErrWinDirNotEmpty = WindowsError 145"
definition ErrWinFileExists :: error where "ErrWinFileExists = WindowsError 80"
definition ErrWinFileNotFound :: error where "ErrWinFileNotFound = WindowsError 2"
definition ErrWinIsADirectory :: error where "ErrWinIsADirectory = WindowsError 21"
definition ErrWinNegativeSeek :: error where "ErrWinNegativeSeek = WindowsError 0x83"
definition ErrWinNotSupported :: error where "ErrWinNotSupported = WindowsError 0x20000082"
definition ErrWinPathNotFound :: error where "ErrWinPathNotFound = WindowsError 3"

lemmas linux_errors =
  ErrBadFileDesc_def ErrCrossDevLink_def ErrDirNotEmpty_def ErrFileExists_def
  ErrInvalidArgument_def ErrIsADirectory_def ErrNoSuchFileOrDir_def ErrNotADirectory_def
  ErrOpNotPermitted_def ErrPermDenied_def ErrTooManySymlinks_def

lemmas windows_errors =
  ErrWinAccessDenied_def ErrWinDirNotEmpty_def ErrWinFileExists_def ErrWinFileNotFound_def
  ErrWinIsADirectory_def ErrWinNegativeSeek_def ErrWinNotSupported_def ErrWinPathNotFound_def

text \<open>The struct \<open>Errors\<close>: one interface field per error kind, nil until set.\<close>

record Errors =
  BadFileDesc :: "error option"
  DirNotEmpty :: "error option"
  FileExists :: "error option"
  InvalidArgument :: "error option"
  IsADirectory :: "error option"
  NoSuchDir :: "error option"
  NoSuchFile :: "error option"
  NotADirectory :: "error option"
  OpNotPermitted :: "error option"
  PermDenied :: "error option"
  TooManySymlinks :: "error option"

definition SetOSType :: "OSType \<Rightarrow> Errors \<Rightarrow> Errors" where
  "SetOSType ost ve =
     (case ost of
        OsWindows \<Rightarrow>
          ve\<lparr>BadFileDesc := Some ErrWinAccessDenied,
             DirNotEmpty := Some ErrWinDirNotEmpty,
             FileExists := Some ErrWinFileExists,
             InvalidArgument := Some ErrWinNegativeSeek,
             IsADirectory := Some ErrWinIsADirectory,
             NoSuchDir := Some ErrWinPathNotFound,
             NoSuchFile := Some ErrWinFileNotFound,
             NotADirectory := Some ErrWinPathNotFound,
             OpNotPermitted := Some ErrWinNotSupported,
             PermDenied := Some ErrWinAccessDenied,
             TooManySymlinks := Some ErrTooManySymlinks\<rparr>
      | _ \<Rightarrow>
          ve\<lparr>BadFileDesc := Some ErrBadFileDesc,
             DirNotEmpty := Some ErrDirNotEmpty,
             FileExists := Some ErrFileExists,
             InvalidArgument := Some ErrInvalidArgument,
             IsADirectory := Some ErrIsADirectory,
             NoSuchDir := Some ErrNoSuchFileOrDir,
             NoSuchFile := Some ErrNoSuchFileOrDir,
             NotADirectory := Some ErrNotADirectory,
             OpNotPermitted := Some ErrOpNotPermitted,
             PermDenied := Some ErrPermDenied,
             TooManySymlinks := Some ErrTooManySymlinks\<rparr>)"

text \<open>The zero value of the struct, as a freshly allocated backend holds it.\<close>

definition zeroErrors :: Errors where
  "zeroErrors =
     \<lparr>BadFileDesc = None, DirNotEmpty = None, FileExists = None, InvalidArgument = None,
      IsADirectory = None, NoSuchDir = None, NoSuchFile = None, NotADirectory = None,
      OpNotPermitted = None, PermDenied = None, TooManySymlinks = None\<rparr>"

text \<open>The dynamic type of an error value.\<close>

fun isLinuxError :: "error option \<Rightarrow> bool" where
  "isLinuxError (Some (LinuxError _)) = True"
| "isLinuxError _ = False"

fun isWindowsError :: "error option \<Rightarrow> bool" where
  "isWindowsError (Some (WindowsError _)) = True"
| "isWindowsError _ = False"

text \<open>All the errors a table can report, in the order of the struct's fields.\<close>

definition reported :: "Errors \<Rightarrow> error option list" where
  "reported ve =
     [BadFileDesc ve, DirNotEmpty ve, FileExists ve, InvalidArgument ve, IsADirectory ve,
      NoSuchDir ve, NoSuchFile ve, NotADirectory ve, OpNotPermitted ve, PermDenied ve,
      TooManySymlinks ve]"

section \<open>The umask register\<close>

type_synonym FileMode = "32 word"

definition ModePerm :: FileMode where "ModePerm = 0x1FF"

text \<open>The package-level variable \<open>umask\<close>; it starts as \<open>0o022\<close>.\<close>

record globals =
  umask :: FileMode

definition initGlobals :: globals where
  "initGlobals = \<lparr>umask = 0x12\<rparr>"

definition SetUMask :: "FileMode \<Rightarrow> globals \<Rightarrow> globals" where
  "SetUMask msk g = (let m = msk AND ModePerm in g\<lparr>umask := m\<rparr>)"

definition UMask :: "globals \<Rightarrow> FileMode" where
  "UMask g = (let um = umask g in um)"

section \<open>Users of the dummy identity manager\<close>

text \<open>The struct \<open>User\<close>, with the fields its methods read.\<close>

record User =
  name :: string
  uid :: int
  gid :: int

definition IsRoot :: "User \<Rightarrow> bool" where
  "IsRoot u \<longleftrightarrow> uid u = 0 \<or> gid u = 0"

section \<open>The base-path overlay\<close>

text \<open>
  The underlying backend is an interface value (\<open>avfs.VFS\<close>): its methods are a table of
  functions over the backend's own state \<open>'s\<close>, each returning its results and the state it
  leaves. \<open>'f\<close> is the backend's file handle (an interface value, possibly nil).
\<close>

record ('s, 'f) VFS =
  vfsAbs :: "string \<Rightarrow> 's \<Rightarrow> (string \<times> error option) \<times> 's"
  vfsChroot :: "string \<Rightarrow> 's \<Rightarrow> error option \<times> 's"
  vfsOpenFile :: "string \<Rightarrow> int \<Rightarrow> FileMode \<Rightarrow> 's \<Rightarrow> ('f \<times> error option) \<times> 's"

text \<open>
  The struct \<open>BasePathFS\<close>: the backend it rewrites paths for (here the backend's state)
  and the stored prefix.
\<close>

record 's BasePathFS =
  baseFS :: 's
  basePath :: string

text \<open>
  The two path translations \<open>pathFsToBpFs\<close> (incoming) and \<open>pathBpFsToFs\<close> (outgoing) are
  methods of \<open>BasePathFS\<close> whose bodies are not part of the sources at hand. They read the
  stored prefix and the path, so they are parameters of that type.
\<close>

record pathOps =
  pathFsToBpFs :: "string \<Rightarrow> string \<Rightarrow> string"
  pathBpFsToFs :: "string \<Rightarrow> string \<Rightarrow> string"

text \<open>
  Modelled from the spec: \<open>BasePathFS.restoreError\<close> is called by the sources but its body is
  not among them. The spec says of the overlay that every outgoing path has the prefix stripped
  and that "every returned error's path field is similarly rewritten"; a nil error stays nil.
\<close>

definition restoreError :: "pathOps \<Rightarrow> 's BasePathFS \<Rightarrow> error option \<Rightarrow> error option" where
  "restoreError P vfs err =
     (case err of
        None \<Rightarrow> None
      | Some (PathError op p e) \<Rightarrow> Some (PathError op (pathBpFsToFs P (basePath vfs) p) e)
      | Some (LinkError op old new e) \<Rightarrow>
          Some (LinkError op (pathBpFsToFs P (basePath vfs) old) (pathBpFsToFs P (basePath vfs) new) e)
      | Some e \<Rightarrow> Some e)"

text \<open>The flags of \<open>os.OpenFile\<close> (the values of the Linux port of the Go library).\<close>

definition O_RDONLY :: int where "O_RDONLY = 0x0"
definition O_RDWR :: int where "O_RDWR = 0x2"
definition O_CREATE :: int where "O_CREATE = 0x40"
definition O_TRUNC :: int where "O_TRUNC = 0x200"

text \<open>
  What \<open>OpenFile\<close> hands back: the backend's own handle when the backend failed, a
  \<open>BasePathFile\<close> wrapping the backend's handle otherwise.
\<close>

datatype 'f File = BaseFile 'f | BasePathFile 'f

definition Abs :: "('s, 'f) VFS \<Rightarrow> pathOps \<Rightarrow> string \<Rightarrow> 's BasePathFS
    \<Rightarrow> (string \<times> error option) \<times> 's BasePathFS" where
  "Abs B P path vfs =
     (case vfsAbs B path (baseFS vfs) of
        ((absPath, _), s') \<Rightarrow>
          ((pathBpFsToFs P (basePath vfs) absPath, None), vfs\<lparr>baseFS := s'\<rparr>))"


definition OpenFile :: "('s, 'f) VFS \<Rightarrow> pathOps \<Rightarrow> string \<Rightarrow> int \<Rightarrow> FileMode \<Rightarrow> 's BasePathFS
    \<Rightarrow> ('f File \<times> error option) \<times> 's BasePathFS" where
  "OpenFile B P nm flag perm vfs =
     (case vfsOpenFile B (pathFsToBpFs P (basePath vfs) nm) flag perm (baseFS vfs) of
        ((f, err), s') \<Rightarrow>
          (let vfs1 = vfs\<lparr>baseFS := s'\<rparr> in
           if err \<noteq> None then ((BaseFile f, restoreError P vfs1 err), vfs1)
           else ((BasePathFile f, None), vfs1)))"

definition Create :: "('s, 'f) VFS \<Rightarrow> pathOps \<Rightarrow> string \<Rightarrow> 's BasePathFS
    \<Rightarrow> ('f File \<times> error option) \<times> 's BasePathFS" where
  "Create B P nm vfs = OpenFile B P nm (O_RDWR OR O_CREATE OR O_TRUNC) 0x1B6 vfs"

definition Open :: "('s, 'f) VFS \<Rightarrow> pathOps \<Rightarrow> string \<Rightarrow> 's BasePathFS
    \<Rightarrow> ('f File \<times> error option) \<times> 's BasePathFS" where
  "Open B P path vfs = OpenFile B P path O_RDONLY 0 vfs"

definition EvalSymlinks :: "string \<Rightarrow> 's BasePathFS \<Rightarrow> (string \<times> error option) \<times> 's BasePathFS" where
  "EvalSymlinks path vfs =
     (let op = ''lstat'' in (('''', Some (PathError op path ErrPermDenied)), vfs))"

definition Readlink :: "string \<Rightarrow> 's BasePathFS \<Rightarrow> (string \<times> error option) \<times> 's BasePathFS" where
  "Readlink nm vfs =
     (let op = ''readlink'' in (('''', Some (PathError op nm ErrPermDenied)), vfs))"

definition Symlink :: "string \<Rightarrow> string \<Rightarrow> 's BasePathFS \<Rightarrow> error option \<times> 's BasePathFS" where
  "Symlink oldname newname vfs =
     (let op = ''symlink'' in (Some (LinkError op oldname newname ErrPermDenied), vfs))"

text \<open>
  A small backend to run the overlay on: every call fails with \<open>PermissionDenied\<close>, as a
  backend that implements nothing does. Its state counts the calls made.
\<close>

definition failingFS :: "(nat, unit) VFS" where
  "failingFS =
     \<lparr>vfsAbs = (\<lambda>p s. (('''', Some ErrPermDenied), Suc s)),
      vfsChroot = (\<lambda>p s. (Some (PathError ''chroot'' p ErrPermDenied), Suc s)),
      vfsOpenFile = (\<lambda>p fl pm s. (((), Some (PathError ''open'' p ErrPermDenied)), Suc s))\<rparr>"

text \<open>A path translation for the runs: prepend the prefix, drop as many bytes again.\<close>

definition prefixOps :: pathOps where
  "prefixOps =
     \<lparr>pathFsToBpFs = (\<lambda>bp p. bp @ p),
      pathBpFsToFs = (\<lambda>bp p. drop (length bp) p)\<rparr>"

section \<open>Volume names\<close>

definition isSlash :: "char \<Rightarrow> bool" where
  "isSlash c \<longleftrightarrow> c = CHR 0x5C \<or> c = CHR ''/''"

text \<open>
  The inner loop of \<open>volumeNameLen\<close>: from \<open>n\<close>, the first index that holds a slash, or the
  length of the path when there is none.
\<close>

function shareLoop :: "string \<Rightarrow> nat \<Rightarrow> nat" where
  "shareLoop path n =
     (if n < length path then
        (if isSlash (path ! n) then n else shareLoop path (n + 1))
      else n)"
  by pat_completeness auto
termination
  by (relation "measure (\<lambda>(path, n). length path - n)") auto

declare shareLoop.simps [simp del]

text \<open>
  The outer loop of \<open>volumeNameLen\<close>, over the server name: \<open>n\<close> runs up to \<open>l - 1\<close>
  (excluded). Every \<open>break\<close> of the source leads to the final \<open>return 0\<close>.
\<close>

function serverLoop :: "string \<Rightarrow> nat \<Rightarrow> nat" where
  "serverLoop path n =
     (if n < length path - 1 then
        (if isSlash (path ! n) then
           (let n1 = n + 1 in
            if \<not> isSlash (path ! n1) then
              (if path ! n1 = CHR ''.'' then 0 else shareLoop path n1)
            else 0)
         else serverLoop path (n + 1))
      else 0)"
  by pat_completeness auto
termination
  by (relation "measure (\<lambda>(path, n). length path - n)") auto

declare serverLoop.simps [simp del]

text \<open>The test \<open>lo <= c && c <= hi\<close> on bytes, and the ASCII letters.\<close>

definition byteIn :: "char \<Rightarrow> char \<Rightarrow> char \<Rightarrow> bool" where
  "byteIn lo hi c \<longleftrightarrow> lo \<le> c \<and> c \<le> hi"

definition isLetter :: "char \<Rightarrow> bool" where
  "isLetter c \<longleftrightarrow> byteIn (CHR ''a'') (CHR ''z'') c \<or> byteIn (CHR ''A'') (CHR ''Z'') c"

definition volumeNameLen :: "OSType \<Rightarrow> string \<Rightarrow> nat" where
  "volumeNameLen ost path =
     (if ost \<noteq> OsWindows then 0
      else if length path < 2 then 0
      else
        (let c = path ! 0 in
         if path ! 1 = CHR '':'' \<and> isLetter c then 2
         else
           (let l = length path in
            if l \<ge> 5 \<and> isSlash (path ! 0) \<and> isSlash (path ! 1) \<and> \<not> isSlash (path ! 2)
               \<and> path ! 2 \<noteq> CHR ''.''
            then serverLoop path 3
            else 0)))"

section \<open>The path iterator\<close>

text \<open>
  What the iterator reads of \<open>Utils\<close>: the emulated OS and its path separator
  (\<open>/\<close>, or \<open>\\<close> for Windows).
\<close>

record Utils =
  osType :: OSType
  pathSeparator :: char

definition posixUtils :: Utils where
  "posixUtils = \<lparr>osType = OsLinux, pathSeparator = CHR ''/''\<rparr>"


text \<open>
  Modelled from the spec: \<open>Utils.VolumeNameLen\<close> is called by \<open>NewPathIterator\<close> but its body
  is not among the sources. The spec's \<open>volume_name_len(p)\<close> is "0 on POSIX; on Windows: 2 for
  drive-letter form, and for UNC the index just past share"; that is the function
  \<open>BaseFS.volumeNameLen\<close> of the sources, which is used here.
\<close>

definition VolumeNameLen :: "Utils \<Rightarrow> string \<Rightarrow> int" where
  "VolumeNameLen ut path = int (volumeNameLen (osType ut) path)"

text \<open>
  \<open>Utils.IsAbs\<close> and \<open>Utils.Join\<close> are called by \<open>ReplacePart\<close>; their bodies are not among
  the sources, so the iterator takes them as parameters.
\<close>

record pathFuns =
  IsAbs :: "string \<Rightarrow> bool"
  Join :: "string list \<Rightarrow> string"

record PathIterator =
  pi_path :: string
  pi_start :: int
  pi_end :: int
  pi_volumeNameLen :: int
  pi_ut :: Utils

text \<open>
  A slice expression \<open>s[a:b]\<close> of Go panics unless \<open>0 \<le> a \<le> b \<le> len(s)\<close>; \<open>None\<close> is
  the panic.
\<close>

definition slice :: "string \<Rightarrow> int \<Rightarrow> int \<Rightarrow> string option" where
  "slice s a b =
     (if 0 \<le> a \<and> a \<le> b \<and> b \<le> int (length s)
      then Some (take (nat b - nat a) (drop (nat a) s))
      else None)"

definition sliceFrom :: "string \<Rightarrow> int \<Rightarrow> string option" where
  "sliceFrom s a = slice s a (int (length s))"

definition sliceTo :: "string \<Rightarrow> int \<Rightarrow> string option" where
  "sliceTo s b = slice s 0 b"

text \<open>\<open>strings.IndexByte\<close>: the index of the first \<open>c\<close> in \<open>s\<close>, or \<open>-1\<close>.\<close>

fun IndexByte :: "string \<Rightarrow> char \<Rightarrow> int" where
  "IndexByte [] c = - 1"
| "IndexByte (x # xs) c =
     (if x = c then 0 else (let r = IndexByte xs c in if r = - 1 then - 1 else r + 1))"

lemma IndexByte_bounds:
  "IndexByte s c = - 1 \<or> (0 \<le> IndexByte s c \<and> IndexByte s c < int (length s))"
  by (induction s) (auto simp add: Let_def)

definition Reset :: "PathIterator \<Rightarrow> PathIterator" where
  "Reset p = p\<lparr>pi_end := pi_volumeNameLen p\<rparr>"

definition NewPathIterator :: "Utils \<Rightarrow> string \<Rightarrow> PathIterator" where
  "NewPathIterator ut path =
     Reset \<lparr>pi_path = path, pi_start = 0, pi_end = 0,
            pi_volumeNameLen = VolumeNameLen ut path, pi_ut = ut\<rparr>"

definition IsLast :: "PathIterator \<Rightarrow> bool" where
  "IsLast p \<longleftrightarrow> pi_end p = int (length (pi_path p))"

definition Part :: "PathIterator \<Rightarrow> string option" where
  "Part p = slice (pi_path p) (pi_start p) (pi_end p)"

text \<open>\<open>Next\<close> returns its boolean and the iterator as it leaves it.\<close>

definition Next :: "PathIterator \<Rightarrow> (bool \<times> PathIterator) option" where
  "Next p =
     (let start = pi_end p + 1 in
      if start \<ge> int (length (pi_path p)) then
        Some (False, p\<lparr>pi_start := start, pi_end := start\<rparr>)
      else
        (case sliceFrom (pi_path p) start of
           None \<Rightarrow> None
         | Some rest \<Rightarrow>
             (let pos = IndexByte rest (pathSeparator (pi_ut p)) in
              if pos = - 1 then Some (True, p\<lparr>pi_start := start, pi_end := int (length (pi_path p))\<rparr>)
              else Some (True, p\<lparr>pi_start := start, pi_end := start + pos\<rparr>))))"

definition ReplacePart :: "pathFuns \<Rightarrow> PathIterator \<Rightarrow> string \<Rightarrow> (bool \<times> PathIterator) option" where
  "ReplacePart F p newPath =
     (let oldPath = pi_path p;
          newp =
            (if IsAbs F newPath then
               (case sliceFrom oldPath (pi_end p) of
                  None \<Rightarrow> None
                | Some r \<Rightarrow> Some (Join F [newPath, r]))
             else
               (case sliceTo oldPath (pi_start p) of
                  None \<Rightarrow> None
                | Some l \<Rightarrow>
                    (case sliceFrom oldPath (pi_end p) of
                       None \<Rightarrow> None
                     | Some r \<Rightarrow> Some (Join F [l, newPath, r]))))
      in case newp of
           None \<Rightarrow> None
         | Some path' \<Rightarrow>
             (let p1 = p\<lparr>pi_path := path'\<rparr> in
              if pi_start p \<ge> int (length path') then Some (True, Reset p1)
              else
                (case sliceTo path' (pi_start p) of
                   None \<Rightarrow> None
                 | Some a \<Rightarrow>
                     (case sliceTo oldPath (pi_start p) of
                        None \<Rightarrow> None
                      | Some b \<Rightarrow>
                          if a \<noteq> b then Some (True, Reset p1)
                          else Some (False, p1\<lparr>pi_end := pi_start p - 1\<rparr>)))))"

text \<open>
  The loop \<open>for pi.Next() { ... pi.Part() ... pi.IsLast() ... }\<close> of the iterator's users:
  the parts it visits, each with what \<open>IsLast\<close> says there. \<open>None\<close> is a panic.
\<close>

function parts :: "PathIterator \<Rightarrow> (string \<times> bool) list option" where
  "parts p =
     (case Next p of
        None \<Rightarrow> None
      | Some (ok, p') \<Rightarrow>
          if ok then
            (case Part p' of
               None \<Rightarrow> None
             | Some s \<Rightarrow>
                 (case parts p' of
                    None \<Rightarrow> None
                  | Some r \<Rightarrow> Some ((s, IsLast p') # r)))
          else Some [])"
  by pat_completeness auto

termination
proof (relation "measure (\<lambda>p. nat (int (length (pi_path p)) - pi_end p))")
  show "wf (measure (\<lambda>p. nat (int (length (pi_path p)) - pi_end p)))"
    by simp
next
  fix p x2 ok p'
  assume nxt: "Next p = Some x2" and x2: "(ok, p') = x2" and ok
  from nxt x2 \<open>ok\<close> have step: "Next p = Some (True, p')"
    by simp
  let ?start = "pi_end p + 1"
  from step have lt: "?start < int (length (pi_path p))"
    by (auto simp add: Next_def Let_def split: if_splits)
  from step lt obtain rest where rest: "sliceFrom (pi_path p) ?start = Some rest"
    by (auto simp add: Next_def Let_def split: option.splits)
  then have len: "int (length rest) = int (length (pi_path p)) - ?start"
    by (auto simp add: sliceFrom_def slice_def split: if_splits)
  from step lt rest have path: "pi_path p' = pi_path p"
    and "pi_end p' = int (length (pi_path p))
         \<or> pi_end p' = ?start + IndexByte rest (pathSeparator (pi_ut p))
             \<and> IndexByte rest (pathSeparator (pi_ut p)) \<noteq> - 1"
    by (auto simp add: Next_def Let_def split: if_splits)
  with IndexByte_bounds [of rest "pathSeparator (pi_ut p)"] len lt
  have "pi_end p < pi_end p'" and "pi_end p' \<le> int (length (pi_path p))"
    by auto
  with path show "(p', p) \<in> measure (\<lambda>p. nat (int (length (pi_path p)) - pi_end p))"
    by simp
qed

declare parts.simps [simp del]


section \<open>Lexical path functions of the POSIX personality\<close>

text \<open>
  Modelled from the spec: \<open>Utils.Clean\<close>, \<open>Utils.Join\<close> and \<open>Utils.IsAbs\<close> are not among the
  sources. The spec's \<open>clean(p)\<close> is to "apply the five standard lexical rules (collapse
  repeated separators, remove \<open>.\<close>, resolve \<open>..\<close> lexically without crossing the root, preserve
  a trailing separator only on bare root)", its \<open>join(parts)\<close> is to "concatenate with a single
  separator and clean" (the sources' comment on \<open>Join\<close> adds that empty strings are ignored),
  and its \<open>is_absolute(p)\<close> is "true iff path starts with separator (POSIX)". Only the POSIX
  personality, whose separator is \<open>/\<close> and which has no volume names, is modelled.
\<close>

fun splitOn :: "char \<Rightarrow> string \<Rightarrow> string list" where
  "splitOn sep [] = [[]]"
| "splitOn sep (c # cs) =
     (if c = sep then [] # splitOn sep cs
      else (case splitOn sep cs of [] \<Rightarrow> [[c]] | x # xs \<Rightarrow> (c # x) # xs))"

fun joinWith :: "char \<Rightarrow> string list \<Rightarrow> string" where
  "joinWith sep [] = []"
| "joinWith sep [x] = x"
| "joinWith sep (x # y # ys) = x @ sep # joinWith sep (y # ys)"

text \<open>
  The segments that remain, \<open>acc\<close> holding those kept so far, last first: empty segments and
  \<open>.\<close> go, \<open>..\<close> removes the segment before it, is dropped at the root and kept at the
  start of a relative path.
\<close>

fun cleanSegments :: "bool \<Rightarrow> string list \<Rightarrow> string list \<Rightarrow> string list" where
  "cleanSegments rooted acc [] = rev acc"
| "cleanSegments rooted acc (s # ss) =
     (if s = [] \<or> s = ''.'' then cleanSegments rooted acc ss
      else if s = ''..'' then
        (case acc of
           [] \<Rightarrow> if rooted then cleanSegments rooted [] ss else cleanSegments rooted [s] ss
         | a # acc' \<Rightarrow>
             if a = ''..'' then cleanSegments rooted (s # acc) ss
             else cleanSegments rooted acc' ss)
      else cleanSegments rooted (s # acc) ss)"

definition CleanPosix :: "string \<Rightarrow> string" where
  "CleanPosix path =
     (case path of
        [] \<Rightarrow> ''.''
      | c # _ \<Rightarrow>
          (let rooted = (c = CHR ''/'');
               body = joinWith (CHR ''/'') (cleanSegments rooted [] (splitOn (CHR ''/'') path))
           in if rooted then CHR ''/'' # body
              else if body = [] then ''.'' else body))"

definition JoinPosix :: "string list \<Rightarrow> string" where
  "JoinPosix elem =
     (let es = filter (\<lambda>e. e \<noteq> []) elem
      in if es = [] then [] else CleanPosix (joinWith (CHR ''/'') es))"

definition IsAbsPosix :: "string \<Rightarrow> bool" where
  "IsAbsPosix path \<longleftrightarrow> (case path of [] \<Rightarrow> False | c # _ \<Rightarrow> c = CHR ''/'')"

definition posixFuns :: pathFuns where
  "posixFuns = \<lparr>IsAbs = IsAbsPosix, Join = JoinPosix\<rparr>"

text \<open>
  The form of a UNC path: two slashes, a server name, a slash, a share name, and then
  nothing or a slash and more. Neither name is empty or holds a slash.
\<close>

definition uncParts :: "char \<Rightarrow> char \<Rightarrow> string \<Rightarrow> char \<Rightarrow> string \<Rightarrow> string \<Rightarrow> bool" where
  "uncParts s1 s2 server s3 share rest \<longleftrightarrow>
     isSlash s1 \<and> isSlash s2 \<and> isSlash s3 \<and> server \<noteq> [] \<and> share \<noteq> []
     \<and> list_all (\<lambda>c. \<not> isSlash c) (server @ share)
     \<and> (case rest of [] \<Rightarrow> True | c # _ \<Rightarrow> isSlash c)"

section \<open>The overlay's path translation, from the spec\<close>





section \<open>Properties\<close>

subsection \<open>The umask register\<close>

lemma ModePerm_mask: "ModePerm = mask 9"
  by (simp add: ModePerm_def mask_eq_exp_minus_1)

text \<open>
  Claim C6. Setting the mask to \<open>m\<close> and reading it back gives \<open>m AND 0o777\<close>: only the nine
  permission bits are stored. A mask that has no other bit (\<open>m \<le> 0o777\<close>) is read back
  unchanged.
\<close>

theorem SetUMask_UMask:
  "UMask (SetUMask m g) = m AND 0x1FF \<and> (m \<le> 0x1FF \<longrightarrow> UMask (SetUMask m g) = m)"
proof -
  have get: "UMask (SetUMask m g) = m AND mask 9"
    by (simp add: UMask_def SetUMask_def ModePerm_mask)
  have small: "m AND mask 9 = m" if "m \<le> 0x1FF"
  proof -
    from that have "m < 2 ^ 9"
      by (simp add: word_le_nat_alt word_less_nat_alt)
    then show ?thesis
      by (rule less_mask_eq)
  qed
  have "mask 9 = (0x1FF :: 32 word)"
    by (simp add: mask_eq_exp_minus_1)
  with get small show ?thesis
    by simp
qed

theorem SetUMask_UMask_witness:
  "(0x12 :: 32 word) \<le> 0x1FF \<and> UMask (SetUMask 0x12 initGlobals) = 0x12"
  using SetUMask_UMask [of "0x12" initGlobals] by simp

subsection \<open>Root detection\<close>

text \<open>
  Claim C9. A user of the dummy identity manager is root exactly when its uid or its gid is
  0; in particular any user whose primary group is 0 is root, whatever its uid.
\<close>

theorem IsRoot_iff:
  "IsRoot u = (uid u = 0 \<or> gid u = 0) \<and> IsRoot (u\<lparr>gid := 0\<rparr>)"
  by (simp add: IsRoot_def)

subsection \<open>The error table\<close>

text \<open>
  Claim C1 (as stated, refuted). With the Windows personality the table's entry for
  \<open>TooManySymlinks\<close> is not a Windows value: it is the Linux value \<open>ErrTooManySymlinks\<close>.
\<close>

theorem SetOSType_windows_counterexample:
  "TooManySymlinks (SetOSType OsWindows zeroErrors) = Some (LinuxError 0x28)
   \<and> \<not> isWindowsError (TooManySymlinks (SetOSType OsWindows zeroErrors))"
  by (simp add: SetOSType_def ErrTooManySymlinks_def)

text \<open>
  Claim C1 (amended). With any personality other than Windows every entry of the table is the
  Linux value of its kind. With the Windows personality every entry except \<open>TooManySymlinks\<close>
  is the Windows value of its kind, and \<open>TooManySymlinks\<close> is the Linux value
  \<open>ErrTooManySymlinks\<close>. What the table held before does not matter.
\<close>

theorem SetOSType_surface:
  "(ost \<noteq> OsWindows \<longrightarrow>
      reported (SetOSType ost ve) =
        [Some ErrBadFileDesc, Some ErrDirNotEmpty, Some ErrFileExists, Some ErrInvalidArgument,
         Some ErrIsADirectory, Some ErrNoSuchFileOrDir, Some ErrNoSuchFileOrDir,
         Some ErrNotADirectory, Some ErrOpNotPermitted, Some ErrPermDenied,
         Some ErrTooManySymlinks]
      \<and> list_all isLinuxError (reported (SetOSType ost ve)))
   \<and> butlast (reported (SetOSType OsWindows ve)) =
        [Some ErrWinAccessDenied, Some ErrWinDirNotEmpty, Some ErrWinFileExists,
         Some ErrWinNegativeSeek, Some ErrWinIsADirectory, Some ErrWinPathNotFound,
         Some ErrWinFileNotFound, Some ErrWinPathNotFound, Some ErrWinNotSupported,
         Some ErrWinAccessDenied]
   \<and> list_all isWindowsError (butlast (reported (SetOSType OsWindows ve)))
   \<and> last (reported (SetOSType OsWindows ve)) = TooManySymlinks (SetOSType OsWindows ve)
   \<and> TooManySymlinks (SetOSType OsWindows ve) = Some ErrTooManySymlinks
   \<and> isLinuxError (TooManySymlinks (SetOSType OsWindows ve))"
proof -
  have posix: "reported (SetOSType ost ve) =
        [Some ErrBadFileDesc, Some ErrDirNotEmpty, Some ErrFileExists, Some ErrInvalidArgument,
         Some ErrIsADirectory, Some ErrNoSuchFileOrDir, Some ErrNoSuchFileOrDir,
         Some ErrNotADirectory, Some ErrOpNotPermitted, Some ErrPermDenied,
         Some ErrTooManySymlinks]" if "ost \<noteq> OsWindows"
    using that by (cases ost) (simp_all add: SetOSType_def reported_def)
  have win: "reported (SetOSType OsWindows ve) =
        [Some ErrWinAccessDenied, Some ErrWinDirNotEmpty, Some ErrWinFileExists,
         Some ErrWinNegativeSeek, Some ErrWinIsADirectory, Some ErrWinPathNotFound,
         Some ErrWinFileNotFound, Some ErrWinPathNotFound, Some ErrWinNotSupported,
         Some ErrWinAccessDenied, Some ErrTooManySymlinks]"
    by (simp add: SetOSType_def reported_def)
  have loop: "TooManySymlinks (SetOSType OsWindows ve) = Some ErrTooManySymlinks"
    by (simp add: SetOSType_def)
  show ?thesis
    by (simp add: posix win loop linux_errors windows_errors)
qed

theorem SetOSType_surface_witness:
  "OsLinux \<noteq> OsWindows
   \<and> list_all isLinuxError (reported (SetOSType OsLinux zeroErrors))
   \<and> last (reported (SetOSType OsLinux zeroErrors)) = Some ErrTooManySymlinks
   \<and> TooManySymlinks (SetOSType OsWindows zeroErrors) = Some ErrTooManySymlinks"
  using SetOSType_surface [of OsLinux zeroErrors] by (simp add: linux_errors)

subsection \<open>The base-path overlay\<close>

text \<open>
  Claim C2. Whatever the paths, \<open>EvalSymlinks\<close> and \<open>Readlink\<close> return the empty string and a
  \<open>PathError\<close> carrying \<open>ErrPermDenied\<close>, \<open>Symlink\<close> returns a \<open>LinkError\<close> carrying
  \<open>ErrPermDenied\<close>, and each leaves the overlay and the backend under it as they were.
\<close>

theorem symlink_operations_denied:
  "EvalSymlinks path vfs = (('''', Some (PathError ''lstat'' path ErrPermDenied)), vfs)
   \<and> Readlink nm vfs = (('''', Some (PathError ''readlink'' nm ErrPermDenied)), vfs)
   \<and> Symlink oldname newname vfs = (Some (LinkError ''symlink'' oldname newname ErrPermDenied), vfs)
   \<and> baseFS (snd (EvalSymlinks path vfs)) = baseFS vfs
   \<and> baseFS (snd (Readlink nm vfs)) = baseFS vfs
   \<and> baseFS (snd (Symlink oldname newname vfs)) = baseFS vfs"
  by (simp add: EvalSymlinks_def Readlink_def Symlink_def)

text \<open>
  Claim C3. \<open>Open\<close> is \<open>OpenFile\<close> with \<open>O_RDONLY\<close> and permission 0, and \<open>Create\<close> is
  \<open>OpenFile\<close> with \<open>O_RDWR|O_CREATE|O_TRUNC\<close> and permission \<open>0o666\<close>: same handle, same
  error, same effect on the backend.
\<close>

theorem Open_Create_OpenFile:
  "Open B P path vfs = OpenFile B P path O_RDONLY 0 vfs
   \<and> Create B P path vfs = OpenFile B P path (O_RDWR OR O_CREATE OR O_TRUNC) 0x1B6 vfs
   \<and> (0x1B6 :: FileMode) = 6 * 64 + 6 * 8 + 6"
  by (simp add: Open_def Create_def)











text \<open>
  Claim C10. \<open>Abs\<close> never returns an error: whatever the backend's \<open>Abs\<close> returned as its
  error, the overlay returns the backend's string, translated back, with a nil error.
\<close>

theorem Abs_discards_error:
  "vfsAbs B path (baseFS vfs) = ((absPath, err), s') \<Longrightarrow>
   Abs B P path vfs = ((pathBpFsToFs P (basePath vfs) absPath, None), vfs\<lparr>baseFS := s'\<rparr>)
   \<and> snd (fst (Abs B P path vfs)) = None"
  by (simp add: Abs_def)

theorem Abs_discards_error_witness:
  "vfsAbs failingFS ''tmp'' 0 = (('''', Some ErrPermDenied), 1)
   \<and> Abs failingFS prefixOps ''tmp'' \<lparr>baseFS = 0, basePath = ''/base''\<rparr>
       = (('''', None), \<lparr>baseFS = 1, basePath = ''/base''\<rparr>)"
proof -
  have call: "vfsAbs failingFS ''tmp'' (baseFS \<lparr>baseFS = 0::nat, basePath = ''/base''\<rparr>)
      = (('''', Some ErrPermDenied), 1)"
    by (simp add: failingFS_def)
  from Abs_discards_error [OF call, of prefixOps] call show ?thesis
    by (simp add: prefixOps_def)
qed

subsection \<open>Volume names\<close>

lemma shareLoop_takeWhile:
  "n \<le> length path \<Longrightarrow>
   shareLoop path n = n + length (takeWhile (\<lambda>c. \<not> isSlash c) (drop n path))"
proof (induction path n rule: shareLoop.induct)
  case (1 path n)
  show ?case
  proof (cases "n < length path")
    case True
    then have split: "drop n path = path ! n # drop (Suc n) path"
      by (simp add: Cons_nth_drop_Suc)
    show ?thesis
    proof (cases "isSlash (path ! n)")
      case True
      with \<open>n < length path\<close> split show ?thesis
        by (subst shareLoop.simps) simp
    next
      case False
      with \<open>n < length path\<close> have "shareLoop path (n + 1)
          = n + 1 + length (takeWhile (\<lambda>c. \<not> isSlash c) (drop (n + 1) path))"
        by (intro "1.IH") simp_all
      with False \<open>n < length path\<close> split show ?thesis
        by (subst shareLoop.simps) simp
    qed
  next
    case False
    with "1.prems" show ?thesis
      by (subst shareLoop.simps) simp
  qed
qed

lemma takeWhile_share:
  assumes "\<forall>c\<in>set share. \<not> isSlash c"
    and "case rest of [] \<Rightarrow> True | c # _ \<Rightarrow> isSlash c"
  shows "takeWhile (\<lambda>c. \<not> isSlash c) (share @ rest) = share"
proof (cases rest)
  case Nil
  with assms(1) show ?thesis
    by simp
next
  case (Cons c cs)
  with assms show ?thesis
    by simp
qed

lemma dropWhile_stops:
  "case dropWhile (\<lambda>c. \<not> isSlash c) xs of [] \<Rightarrow> True | c # _ \<Rightarrow> isSlash c"
  by (induction xs) auto

lemma serverLoop_unc:
  assumes "\<forall>c\<in>set xs. \<not> isSlash c"
    and "isSlash s3"
    and "share \<noteq> []"
    and "\<forall>c\<in>set share. \<not> isSlash c"
    and "case rest of [] \<Rightarrow> True | c # _ \<Rightarrow> isSlash c"
  shows "serverLoop (pre @ xs @ s3 # share @ rest) (length pre)
    = (if hd share = CHR ''.'' then 0 else length pre + length xs + 1 + length share)"
  using assms(1)
proof (induction xs arbitrary: pre)
  case Nil
  let ?path = "pre @ s3 # share @ rest"
  from assms(3) obtain h t where share: "share = h # t"
    by (cases share) auto
  have at: "?path ! length pre = s3" "?path ! Suc (length pre) = h"
    by (simp_all add: share nth_append)
  have "shareLoop ?path (Suc (length pre))
      = Suc (length pre) + length (takeWhile (\<lambda>c. \<not> isSlash c) (drop (Suc (length pre)) ?path))"
    by (rule shareLoop_takeWhile) simp
  also have "drop (Suc (length pre)) ?path = share @ rest"
    by simp
  also have "takeWhile (\<lambda>c. \<not> isSlash c) (share @ rest) = share"
    using assms(4) assms(5) by (rule takeWhile_share)
  finally have "shareLoop ?path (Suc (length pre)) = Suc (length pre) + length share" .
  moreover have "\<not> isSlash h"
    using assms(4) share by simp
  ultimately show ?case
    using assms(2) at by (subst serverLoop.simps) (simp add: share Let_def)
next
  case (Cons x xs)
  let ?path = "pre @ (x # xs) @ s3 # share @ rest"
  from assms(3) have long: "length pre < length ?path - 1"
    by (cases share) simp_all
  have at: "?path ! length pre = x"
    by (simp add: nth_append)
  have "serverLoop ((pre @ [x]) @ xs @ s3 # share @ rest) (length (pre @ [x]))
      = (if hd share = CHR ''.'' then 0 else length (pre @ [x]) + length xs + 1 + length share)"
    using Cons.prems by (intro Cons.IH) simp
  then have "serverLoop ?path (length pre + 1)
      = (if hd share = CHR ''.'' then 0 else length pre + length (x # xs) + 1 + length share)"
    by simp
  moreover have "\<not> isSlash x"
    using Cons.prems by simp
  ultimately show ?case
    using long at by (subst serverLoop.simps) (simp del: append.simps)
qed

lemma serverLoop_nonzero:
  "serverLoop path n \<noteq> 0 \<Longrightarrow> n \<le> length path \<Longrightarrow>
   \<exists>xs s3 share rest.
     drop n path = xs @ s3 # share @ rest
     \<and> (\<forall>c\<in>set xs. \<not> isSlash c) \<and> isSlash s3
     \<and> share \<noteq> [] \<and> (\<forall>c\<in>set share. \<not> isSlash c) \<and> hd share \<noteq> CHR ''.''
     \<and> (case rest of [] \<Rightarrow> True | c # _ \<Rightarrow> isSlash c)
     \<and> serverLoop path n = n + length xs + 1 + length share"
proof (induction path n rule: serverLoop.induct)
  case (1 path n)
  from "1.prems"(1) have long: "n < length path - 1"
    by (subst (asm) serverLoop.simps) (simp split: if_splits)
  then have split: "drop n path = path ! n # drop (Suc n) path"
    by (simp add: Cons_nth_drop_Suc)
  show ?case
  proof (cases "isSlash (path ! n)")
    case True
    let ?tail = "drop (Suc n) path"
    let ?share = "takeWhile (\<lambda>c. \<not> isSlash c) ?tail"
    let ?rest = "dropWhile (\<lambda>c. \<not> isSlash c) ?tail"
    from long have tail: "?tail = path ! Suc n # drop (Suc (Suc n)) path"
      by (simp add: Cons_nth_drop_Suc)
    have unfold: "serverLoop path n =
        (if \<not> isSlash (path ! Suc n)
         then (if path ! Suc n = CHR ''.'' then 0 else shareLoop path (Suc n)) else 0)"
      using long True by (subst serverLoop.simps) (simp add: Let_def)
    with "1.prems"(1)
    have next1: "\<not> isSlash (path ! Suc n)" "path ! Suc n \<noteq> CHR ''.''"
      and res: "serverLoop path n = shareLoop path (Suc n)"
      by (simp_all split: if_splits)
    from long have "shareLoop path (Suc n) = Suc n + length ?share"
      by (intro shareLoop_takeWhile) simp
    with res have len: "serverLoop path n = n + length ([]::string) + 1 + length ?share"
      by simp
    from next1 tail have share: "?share \<noteq> []" "hd ?share \<noteq> CHR ''.''"
      by simp_all
    have rest: "case ?rest of [] \<Rightarrow> True | c # _ \<Rightarrow> isSlash c"
      by (rule dropWhile_stops)
    have names: "\<forall>c\<in>set ?share. \<not> isSlash c"
      by (auto dest: set_takeWhileD)
    from split have "drop n path = [] @ path ! n # ?share @ ?rest"
      by simp
    with True share rest names len show ?thesis
      by (intro exI [of _ "[]"] exI [of _ "path ! n"] exI [of _ ?share] exI [of _ ?rest]) simp
  next
    case False
    with long have res: "serverLoop path n = serverLoop path (n + 1)"
      by (subst serverLoop.simps) simp
    with "1.prems" long have "serverLoop path (n + 1) \<noteq> 0" "n + 1 \<le> length path"
      by simp_all
    with "1.IH" [OF long False] obtain xs s3 share rest
      where IH: "drop (n + 1) path = xs @ s3 # share @ rest"
        "\<forall>c\<in>set xs. \<not> isSlash c" "isSlash s3"
        "share \<noteq> []" "\<forall>c\<in>set share. \<not> isSlash c" "hd share \<noteq> CHR ''.''"
        "case rest of [] \<Rightarrow> True | c # _ \<Rightarrow> isSlash c"
        "serverLoop path (n + 1) = n + 1 + length xs + 1 + length share"
      by blast
    from split IH(1) have "drop n path = (path ! n # xs) @ s3 # share @ rest"
      by simp
    moreover from res IH(8) have "serverLoop path n = n + length (path ! n # xs) + 1 + length share"
      by simp
    moreover from False IH(2) have "\<forall>c\<in>set (path ! n # xs). \<not> isSlash c"
      by simp
    ultimately show ?thesis
      using IH(3-7) by blast
  qed
qed

lemma slash_not_colon: "isSlash c \<Longrightarrow> c \<noteq> CHR '':''"
  by (auto simp add: isSlash_def)

lemma volumeNameLen_drive:
  "isLetter c \<Longrightarrow> volumeNameLen OsWindows (c # CHR '':'' # rest) = 2"
  by (simp add: volumeNameLen_def)

lemma volumeNameLen_unc:
  assumes form: "uncParts s1 s2 server s3 share rest"
    and dots: "hd server \<noteq> CHR ''.''" "hd share \<noteq> CHR ''.''"
  shows "volumeNameLen OsWindows (s1 # s2 # server @ s3 # share @ rest)
    = 3 + length server + length share"
proof -
  let ?path = "s1 # s2 # server @ s3 # share @ rest"
  from form obtain h t where server: "server = h # t"
    by (cases server) (auto simp add: uncParts_def)
  from form obtain k u where share: "share = k # u"
    by (cases share) (auto simp add: uncParts_def)
  from form have slashes: "isSlash s1" "isSlash s2" "isSlash s3"
    and names: "\<forall>c\<in>set server. \<not> isSlash c" "\<forall>c\<in>set share. \<not> isSlash c"
    and rest: "case rest of [] \<Rightarrow> True | c # _ \<Rightarrow> isSlash c"
    by (simp_all add: uncParts_def list_all_iff)
  have "serverLoop ([s1, s2, h] @ t @ s3 # share @ rest) (length [s1, s2, h])
      = (if hd share = CHR ''.'' then 0 else length [s1, s2, h] + length t + 1 + length share)"
    using names(1) slashes(3) _ names(2) rest
    by (intro serverLoop_unc) (simp_all add: server share)
  with dots(2) have loop: "serverLoop ?path 3 = 3 + length server + length share"
    by (simp add: server numeral_3_eq_3)
  have "\<not> isSlash h" "h \<noteq> CHR ''.''"
    using names(1) dots(1) by (simp_all add: server)
  with slashes slash_not_colon [of s2] loop show ?thesis
    by (simp add: volumeNameLen_def server share)
qed

lemma volumeNameLen_nonzero:
  assumes "volumeNameLen OsWindows path \<noteq> 0"
  shows "(\<exists>c rest. isLetter c \<and> path = c # CHR '':'' # rest)
    \<or> (\<exists>s1 s2 server s3 share rest.
          uncParts s1 s2 server s3 share rest
          \<and> hd server \<noteq> CHR ''.'' \<and> hd share \<noteq> CHR ''.''
          \<and> path = s1 # s2 # server @ s3 # share @ rest)"
proof (cases "path ! 1 = CHR '':'' \<and> isLetter (path ! 0)")
  case True
  from assms have "2 \<le> length path"
    by (simp add: volumeNameLen_def split: if_splits)
  then obtain c d rest where "path = c # d # rest"
    by (cases path; cases "tl path") auto
  with True show ?thesis
    by auto
next
  case False
  with assms have long: "5 \<le> length path"
    and lead: "isSlash (path ! 0)" "isSlash (path ! 1)" "\<not> isSlash (path ! 2)" "path ! 2 \<noteq> CHR ''.''"
    and loop: "serverLoop path 3 \<noteq> 0"
    by (auto simp add: volumeNameLen_def Let_def split: if_splits)
  from long obtain s1 s2 h tl3 where path: "path = s1 # s2 # h # tl3"
    by (cases path; cases "tl path"; cases "tl (tl path)") auto
  from loop long obtain xs s3 share rest
    where parts: "drop 3 path = xs @ s3 # share @ rest"
      "\<forall>c\<in>set xs. \<not> isSlash c" "isSlash s3"
      "hd share \<noteq> CHR ''.''"
      "share \<noteq> []" "\<forall>c\<in>set share. \<not> isSlash c"
      "case rest of [] \<Rightarrow> True | c # _ \<Rightarrow> isSlash c"
    using serverLoop_nonzero [of path 3] by auto
  from parts(1) path have tl3: "tl3 = xs @ s3 # share @ rest"
    by (simp add: numeral_3_eq_3)
  from lead path parts(2,3,5,6,7) have "uncParts s1 s2 (h # xs) s3 share rest"
    by (auto simp add: uncParts_def list_all_iff)
  moreover from lead path have "hd (h # xs) \<noteq> CHR ''.''"
    by simp
  moreover from path tl3 have "path = s1 # s2 # (h # xs) @ s3 # share @ rest"
    by simp
  ultimately show ?thesis
    using parts(4) by blast
qed

text \<open>
  Claim C7 (as stated, refuted). A path of two backslashes, the server name \<open>srv\<close>, a backslash
  and the share name \<open>.git\<close> has the form the claim gives, and \<open>volumeNameLen\<close> returns 0 for
  it, not the index 10 just past the share name.
\<close>

theorem volumeNameLen_unc_counterexample:
  "uncParts (CHR 0x5C) (CHR 0x5C) ''srv'' (CHR 0x5C) ''.git'' []
   \<and> volumeNameLen OsWindows (CHR 0x5C # CHR 0x5C # ''srv'' @ CHR 0x5C # ''.git'' @ []) = 0
   \<and> 3 + length ''srv'' + length ''.git'' = (10::nat)"
  by (simp add: uncParts_def isSlash_def volumeNameLen_def Let_def serverLoop.simps)

text \<open>
  Claim C7 (amended). \<open>volumeNameLen\<close> returns 0 whenever the OS type is not Windows. On
  Windows it returns 2 for every path that starts with an ASCII letter and a colon; for every
  path of the UNC form whose server name and share name do not begin with a dot it returns the
  index just past the share name; and it returns 0 for every other path: a path for which the
  result is not 0 is of one of these two kinds.
\<close>

theorem volumeNameLen_cases:
  "(ost \<noteq> OsWindows \<longrightarrow> volumeNameLen ost path = 0)
   \<and> (isLetter c \<longrightarrow> volumeNameLen OsWindows (c # CHR '':'' # rest) = 2)
   \<and> (uncParts s1 s2 server s3 share rest' \<and> hd server \<noteq> CHR ''.'' \<and> hd share \<noteq> CHR ''.'' \<longrightarrow>
        volumeNameLen OsWindows (s1 # s2 # server @ s3 # share @ rest')
          = 3 + length server + length share)
   \<and> (volumeNameLen OsWindows path \<noteq> 0 \<longrightarrow>
        (\<exists>c rest. isLetter c \<and> path = c # CHR '':'' # rest)
        \<or> (\<exists>s1 s2 server s3 share rest.
              uncParts s1 s2 server s3 share rest
              \<and> hd server \<noteq> CHR ''.'' \<and> hd share \<noteq> CHR ''.''
              \<and> path = s1 # s2 # server @ s3 # share @ rest))"
proof -
  have "volumeNameLen ost path = 0" if "ost \<noteq> OsWindows"
    using that by (simp add: volumeNameLen_def)
  then show ?thesis
    using volumeNameLen_drive volumeNameLen_unc volumeNameLen_nonzero by blast
qed

theorem volumeNameLen_cases_witness:
  "OsLinux \<noteq> OsWindows
   \<and> volumeNameLen OsLinux ''C:/dir'' = 0
   \<and> isLetter CHR ''C''
   \<and> volumeNameLen OsWindows ''C:/dir'' = 2
   \<and> uncParts (CHR 0x5C) (CHR 0x5C) ''srv'' (CHR 0x5C) ''share'' ''/dir''
   \<and> volumeNameLen OsWindows (CHR 0x5C # CHR 0x5C # ''srv'' @ CHR 0x5C # ''share'' @ ''/dir'') = 11
   \<and> volumeNameLen OsWindows ''C:/dir'' \<noteq> 0"
proof -
  have letter: "isLetter CHR ''C''"
    by (simp add: isLetter_def byteIn_def)
  have form: "uncParts (CHR 0x5C) (CHR 0x5C) ''srv'' (CHR 0x5C) ''share'' ''/dir''"
    by (simp add: uncParts_def isSlash_def)
  from letter form
    volumeNameLen_cases [of OsLinux "''C:/dir''" "CHR ''C''" "''/dir''"
      "CHR 0x5C" "CHR 0x5C" "''srv''" "CHR 0x5C" "''share''" "''/dir''"]
  show ?thesis
    by simp
qed

subsection \<open>The path iterator\<close>



lemma sliceFrom_Some:
  "0 \<le> a \<Longrightarrow> a \<le> int (length s) \<Longrightarrow> sliceFrom s a = Some (drop (nat a) s)"
  by (simp add: sliceFrom_def slice_def)

lemma sliceTo_Some:
  "0 \<le> b \<Longrightarrow> b \<le> int (length s) \<Longrightarrow> sliceTo s b = Some (take (nat b) s)"
  by (simp add: sliceTo_def slice_def)








text \<open>
  Claim C4 (as stated, refuted). The iterator over \<open>/a/b/c\<close> stands on \<open>b\<close> after two calls
  of \<open>Next\<close>. Replacing that part by the absolute path \<open>/a/x\<close> gives the path \<open>/a/x/c\<close>, but
  the cursor is not reset to the volume root (position 0): it is placed at 2, and
  \<open>ReplacePart\<close> returns false.
\<close>

theorem ReplacePart_absolute_counterexample:
  "(case Next (NewPathIterator posixUtils ''/a/b/c'') of None \<Rightarrow> None | Some (_, p1) \<Rightarrow> Next p1)
     = Some (True, \<lparr>pi_path = ''/a/b/c'', pi_start = 3, pi_end = 4, pi_volumeNameLen = 0,
                    pi_ut = posixUtils\<rparr>)
   \<and> Part \<lparr>pi_path = ''/a/b/c'', pi_start = 3, pi_end = 4, pi_volumeNameLen = 0,
            pi_ut = posixUtils\<rparr> = Some ''b''
   \<and> IsAbs posixFuns ''/a/x''
   \<and> ReplacePart posixFuns
        \<lparr>pi_path = ''/a/b/c'', pi_start = 3, pi_end = 4, pi_volumeNameLen = 0, pi_ut = posixUtils\<rparr>
        ''/a/x''
      = Some (False, \<lparr>pi_path = ''/a/x/c'', pi_start = 3, pi_end = 2, pi_volumeNameLen = 0,
                      pi_ut = posixUtils\<rparr>)"
  by (simp add: Next_def Part_def NewPathIterator_def Reset_def ReplacePart_def
      VolumeNameLen_def volumeNameLen_def posixUtils_def sliceFrom_def sliceTo_def slice_def
      Let_def posixFuns_def IsAbsPosix_def JoinPosix_def CleanPosix_def)

text \<open>
  Claim C4 (amended). For every iterator standing on a current part (\<open>0 \<le> start \<le> end \<le>
  len(path)\<close>), \<open>ReplacePart(newPath)\<close> does not panic and rewrites the path to
  \<open>Join(newPath, right)\<close> when \<open>newPath\<close> is absolute and to \<open>Join(left, newPath, right)\<close> when
  it is not. Whether \<open>newPath\<close> is absolute or not, the iterator is reset to the volume root
  and true is returned exactly when the new path does not reach beyond the old start position
  or differs from the old path before it; otherwise false is returned and the cursor is put
  just before the old start position, so that the next call of \<open>Next\<close> succeeds with a part
  that begins where the replaced part began.
\<close>

theorem ReplacePart_effect:
  assumes "0 \<le> pi_start p" and "pi_start p \<le> pi_end p"
    and "pi_end p \<le> int (length (pi_path p))"
  shows "let l = take (nat (pi_start p)) (pi_path p);
             r = drop (nat (pi_end p)) (pi_path p);
             path' = (if IsAbs F newPath then Join F [newPath, r] else Join F [l, newPath, r]);
             reset = (int (length path') \<le> pi_start p \<or> take (nat (pi_start p)) path' \<noteq> l)
         in ReplacePart F p newPath
              = Some (reset, p\<lparr>pi_path := path',
                                pi_end := (if reset then pi_volumeNameLen p else pi_start p - 1)\<rparr>)
            \<and> (\<not> reset \<longrightarrow>
                 (\<exists>p2. Next (p\<lparr>pi_path := path', pi_end := pi_start p - 1\<rparr>) = Some (True, p2)
                       \<and> pi_start p2 = pi_start p))"
proof -
  define l where "l = take (nat (pi_start p)) (pi_path p)"
  define r where "r = drop (nat (pi_end p)) (pi_path p)"
  define path' where "path' = (if IsAbs F newPath then Join F [newPath, r] else Join F [l, newPath, r])"
  define reset where "reset \<longleftrightarrow> int (length path') \<le> pi_start p \<or> take (nat (pi_start p)) path' \<noteq> l"
  from assms have right: "sliceFrom (pi_path p) (pi_end p) = Some r"
    unfolding r_def by (intro sliceFrom_Some) simp_all
  from assms have left: "sliceTo (pi_path p) (pi_start p) = Some l"
    unfolding l_def by (intro sliceTo_Some) simp_all
  have body: "ReplacePart F p newPath =
      (if pi_start p \<ge> int (length path') then Some (True, Reset (p\<lparr>pi_path := path'\<rparr>))
       else
         (case sliceTo path' (pi_start p) of
            None \<Rightarrow> None
          | Some a \<Rightarrow>
              if a \<noteq> l then Some (True, Reset (p\<lparr>pi_path := path'\<rparr>))
              else Some (False, p\<lparr>pi_path := path', pi_end := pi_start p - 1\<rparr>)))"
    unfolding path'_def
    by (cases "IsAbs F newPath")
      (simp_all add: ReplacePart_def Let_def right left split: option.splits)
  have replace: "ReplacePart F p newPath
      = Some (reset, p\<lparr>pi_path := path',
                        pi_end := (if reset then pi_volumeNameLen p else pi_start p - 1)\<rparr>)"
  proof (cases "int (length path') \<le> pi_start p")
    case True
    then show ?thesis
      by (simp add: body reset_def Reset_def)
  next
    case False
    with assms(1) have "sliceTo path' (pi_start p) = Some (take (nat (pi_start p)) path')"
      by (intro sliceTo_Some) simp_all
    with False show ?thesis
      by (simp add: body reset_def Reset_def)
  qed
  have "\<exists>p2. Next (p\<lparr>pi_path := path', pi_end := pi_start p - 1\<rparr>) = Some (True, p2)
      \<and> pi_start p2 = pi_start p" if "\<not> reset"
  proof -
    from that have "\<not> int (length path') \<le> pi_start p"
      by (simp add: reset_def)
    moreover from this assms(1)
    have "sliceFrom path' (pi_start p) = Some (drop (nat (pi_start p)) path')"
      by (intro sliceFrom_Some) simp_all
    ultimately show ?thesis
      by (simp add: Next_def Let_def)
  qed
  with replace show ?thesis
    unfolding Let_def reset_def path'_def r_def l_def by blast
qed

theorem ReplacePart_effect_witness:
  "(0::int) \<le> 3 \<and> (3::int) \<le> 4 \<and> (4::int) \<le> int (length ''/a/b/c'')
   \<and> \<not> IsAbs posixFuns ''x/y''
   \<and> ReplacePart posixFuns
        \<lparr>pi_path = ''/a/b/c'', pi_start = 3, pi_end = 4, pi_volumeNameLen = 0, pi_ut = posixUtils\<rparr>
        ''x/y''
      = Some (False, \<lparr>pi_path = ''/a/x/y/c'', pi_start = 3, pi_end = 2, pi_volumeNameLen = 0,
                      pi_ut = posixUtils\<rparr>)"
proof -
  let ?p = "\<lparr>pi_path = ''/a/b/c'', pi_start = 3, pi_end = 4, pi_volumeNameLen = 0,
             pi_ut = posixUtils\<rparr>"
  have pos: "0 \<le> pi_start ?p" "pi_start ?p \<le> pi_end ?p" "pi_end ?p \<le> int (length (pi_path ?p))"
    by simp_all
  have rel: "\<not> IsAbs posixFuns ''x/y''"
    by (simp add: posixFuns_def IsAbsPosix_def)
  have join: "Join posixFuns [''/a/'', ''x/y'', ''/c''] = ''/a/x/y/c''"
    by (simp add: posixFuns_def JoinPosix_def CleanPosix_def)
  from ReplacePart_effect [OF pos, of posixFuns "''x/y''"] rel join show ?thesis
    by (simp add: Let_def)
qed

end
